theory Spec2Isabelle
  imports Main
begin

section \<open>Data model of the auth context (contexts/AuthContext.tsx)\<close>

text \<open>
  The \<^verbatim>\<open>User\<close> interface. The backend's validate response carries the same four
  fields, so one record serves both; the login response extends it with the bearer
  token. The role is whatever string the backend sent: the TypeScript union
  \<^verbatim>\<open>'student' | 'admin'\<close> is not checked at run time.
\<close>

record User =
  user_id :: string
  email :: string
  name :: string
  role :: string

type_synonym validate_response = User

record login_response = User +
  access_token :: string

text \<open>A thrown \<^verbatim>\<open>Error\<close>, with its message.\<close>

datatype error = Error string

text \<open>
  The state the provider component works on. \<open>user\<close>, \<open>loading\<close> and
  \<open>lastActivity\<close> are the three \<^verbatim>\<open>useState\<close> cells; \<open>localStorage\<close> is the
  browser's key-value store (string keys, string values, a missing key reads as
  \<^verbatim>\<open>null\<close>); \<open>pathname\<close> is \<^verbatim>\<open>window.location.pathname\<close>, which
  \<^verbatim>\<open>router.push\<close> changes; \<open>provider_signed_in\<close> is the session held by the
  third-party identity provider.

  The last two fields are history variables, not program variables.
  \<open>validate_calls\<close> counts the requests sent to \<^verbatim>\<open>api.validate()\<close>;
  \<open>validated\<close> holds the credential whose most recent check by the backend (a
  validate call, or the login that issued it) succeeded, and \<open>None\<close> when the most
  recent check failed or none has happened in this page load.
\<close>

record auth_state =
  user :: "User option"
  loading :: bool
  lastActivity :: int
  localStorage :: "string \<rightharpoonup> string"
  pathname :: string
  provider_signed_in :: bool
  validate_calls :: nat
  validated :: "string option"

subsection \<open>JavaScript primitives\<close>

text \<open>
  Truthiness of a value of type \<^verbatim>\<open>string | null | undefined\<close>: \<^verbatim>\<open>null\<close>,
  \<^verbatim>\<open>undefined\<close> and the empty string are falsy.
\<close>

fun truthy :: "string option \<Rightarrow> bool" where
  "truthy None = False"
| "truthy (Some v) = (v \<noteq> [])"

text \<open>\<^verbatim>\<open>a || b\<close> for a nullable string \<open>a\<close> and a string \<open>b\<close>.\<close>

definition or_else :: "string option \<Rightarrow> string \<Rightarrow> string" where
  "or_else a b = (case a of None \<Rightarrow> b | Some v \<Rightarrow> if v \<noteq> [] then v else b)"

definition getItem :: "string \<Rightarrow> auth_state \<Rightarrow> string option" where
  "getItem k s = localStorage s k"

definition setItem :: "string \<Rightarrow> string \<Rightarrow> auth_state \<Rightarrow> auth_state" where
  "setItem k v s = s\<lparr>localStorage := (localStorage s)(k \<mapsto> v)\<rparr>"

definition removeItem :: "string \<Rightarrow> auth_state \<Rightarrow> auth_state" where
  "removeItem k s = s\<lparr>localStorage := (localStorage s)(k := None)\<rparr>"

definition setUser :: "User option \<Rightarrow> auth_state \<Rightarrow> auth_state" where
  "setUser u s = s\<lparr>user := u\<rparr>"

definition setLoading :: "bool \<Rightarrow> auth_state \<Rightarrow> auth_state" where
  "setLoading b s = s\<lparr>loading := b\<rparr>"

definition setLastActivity :: "int \<Rightarrow> auth_state \<Rightarrow> auth_state" where
  "setLastActivity t s = s\<lparr>lastActivity := t\<rparr>"

definition router_push :: "string \<Rightarrow> auth_state \<Rightarrow> auth_state" where
  "router_push p s = s\<lparr>pathname := p\<rparr>"

text \<open>
  The \<^verbatim>\<open>SIGNED_OUT\<close> branch of the callback the component gives to
  \<^verbatim>\<open>supabase.auth.onAuthStateChange\<close> when it is mounted.
\<close>

definition signed_out_branch :: "auth_state \<Rightarrow> auth_state" where
  "signed_out_branch s =
     (let s1 = setUser None s;
          s2 = removeItem ''access_token'' s1;
          s3 = removeItem ''user_role'' s2;
          s4 = removeItem ''user_name'' s3;
          s5 = removeItem ''login_time'' s4
      in router_push ''/login'' s5)"

text \<open>
  Modelled from the spec: the provider client (\<^verbatim>\<open>@/lib/supabase\<close>) is not among
  the sources. The provider emits its signed-out event for a sign-out started by
  either side, and the subscribed callback handles it. The awaited
  \<^verbatim>\<open>supabase.auth.signOut()\<close> resolves to a result that may carry an error, and the
  outcome is an argument here: \<open>None\<close> when the sign-out took effect, in which case
  the provider's session has ended and the signed-out event has been handled by the
  time the call resolves; \<open>Some err\<close> when the provider reported an error, in which
  case nothing has changed. No caller in the component looks at the result.
\<close>

definition supabase_signOut :: "error option \<Rightarrow> auth_state \<Rightarrow> auth_state" where
  "supabase_signOut outcome s =
     (case outcome of
        Some err \<Rightarrow> s
      | None \<Rightarrow> signed_out_branch (s\<lparr>provider_signed_in := False\<rparr>))"

text \<open>The context value's \<^verbatim>\<open>isAuthenticated: !!user\<close>.\<close>

definition isAuthenticated :: "auth_state \<Rightarrow> bool" where
  "isAuthenticated s = (user s \<noteq> None)"

subsection \<open>Decimal strings: \<^verbatim>\<open>Date.now().toString()\<close> and \<^verbatim>\<open>parseInt\<close>\<close>

text \<open>
  Timestamps are \<^verbatim>\<open>Date.now()\<close> values: integers of magnitude below \<open>2^53\<close>, where
  JavaScript's number arithmetic is exact and \<^verbatim>\<open>toString\<close> prints plain decimal
  digits. They are modelled as \<open>int\<close>.
\<close>

definition digit_char :: "nat \<Rightarrow> char" where
  "digit_char d = ''0123456789'' ! d"

function digits :: "nat \<Rightarrow> string" where
  "digits n = (if n < 10 then [digit_char n] else digits (n div 10) @ [digit_char (n mod 10)])"
  by pat_completeness auto
termination
  by (relation "measure id") auto

declare digits.simps [simp del]

definition toString :: "int \<Rightarrow> string" where
  "toString i = (if i < 0 then CHR ''-'' # digits (nat (- i)) else digits (nat i))"

text \<open>
  \<^verbatim>\<open>parseInt(str)\<close> with no radix: skip leading white space, read a sign, switch to
  radix 16 after a \<^verbatim>\<open>0x\<close> prefix, then read the longest run of digits of the radix.
  No digit at all gives \<^verbatim>\<open>NaN\<close>, here \<open>None\<close>; every comparison with
  \<^verbatim>\<open>NaN\<close> is false. Characters are the code units below 256, so the white space
  is the ASCII white space and the no-break space.
\<close>

definition is_space :: "char \<Rightarrow> bool" where
  "is_space c = (c \<in> set [CHR '' '', CHR 0x09, CHR 0x0A, CHR 0x0B, CHR 0x0C, CHR 0x0D, CHR 0xA0])"

definition digit_value :: "char \<Rightarrow> nat option" where
  "digit_value c =
     (let k = (of_char c :: nat) in
      if 48 \<le> k \<and> k \<le> 57 then Some (k - 48)
      else if 97 \<le> k \<and> k \<le> 102 then Some (k - 87)
      else if 65 \<le> k \<and> k \<le> 70 then Some (k - 55)
      else None)"

definition is_digit :: "nat \<Rightarrow> char \<Rightarrow> bool" where
  "is_digit radix c = (case digit_value c of None \<Rightarrow> False | Some d \<Rightarrow> d < radix)"

definition digits_value :: "nat \<Rightarrow> string \<Rightarrow> nat" where
  "digits_value radix ds = foldl (\<lambda>a c. radix * a + the (digit_value c)) 0 ds"

definition parse_radix :: "nat \<Rightarrow> string \<Rightarrow> nat option" where
  "parse_radix radix str =
     (let ds = takeWhile (is_digit radix) str
      in if ds = [] then None else Some (digits_value radix ds))"

definition parse_unsigned :: "string \<Rightarrow> nat option" where
  "parse_unsigned str =
     (if take 2 str = ''0x'' \<or> take 2 str = ''0X'' then parse_radix 16 (drop 2 str)
      else parse_radix 10 str)"

definition parseInt :: "string \<Rightarrow> int option" where
  "parseInt str =
     (let t = dropWhile is_space str in
      case t of
        [] \<Rightarrow> None
      | c # r \<Rightarrow>
          if c = CHR ''-'' then map_option (\<lambda>n. - int n) (parse_unsigned r)
          else if c = CHR ''+'' then map_option int (parse_unsigned r)
          else map_option int (parse_unsigned t))"

section \<open>Operations\<close>

subsection \<open>logout\<close>

text \<open>
  \<^verbatim>\<open>logout\<close> is an async function with one suspension point, the awaited
  \<^verbatim>\<open>supabase.auth.signOut()\<close>. \<open>logout_begin\<close> is the part up to the end of that
  sign-out, whose outcome it is given; \<open>logout_resume\<close> is the continuation, which
  runs in one piece and does not depend on the outcome.
\<close>

definition logout_begin :: "error option \<Rightarrow> auth_state \<Rightarrow> auth_state" where
  "logout_begin outcome s = supabase_signOut outcome s"

definition logout_resume :: "auth_state \<Rightarrow> auth_state" where
  "logout_resume s =
     (let s1 = removeItem ''access_token'' s;
          s2 = removeItem ''user_role'' s1;
          s3 = removeItem ''user_name'' s2;
          s4 = removeItem ''login_time'' s3;
          s5 = setUser None s4
      in router_push ''/login'' s5)"

definition logout :: "error option \<Rightarrow> auth_state \<Rightarrow> auth_state" where
  "logout outcome s = logout_resume (logout_begin outcome s)"

subsection \<open>checkAuth: validation of a persisted credential at startup\<close>

text \<open>
  The request reads the bearer token from \<^verbatim>\<open>localStorage\<close> when it is sent
  (\<^verbatim>\<open>getToken\<close> in the API client), so the credential a validation is about is the
  one stored at that moment.
\<close>

definition api_validate_sent :: "auth_state \<Rightarrow> auth_state" where
  "api_validate_sent s = s\<lparr>validate_calls := Suc (validate_calls s)\<rparr>"

text \<open>
  \<open>checkAuth_begin\<close> runs up to the awaited \<^verbatim>\<open>api.validate()\<close>; the flag says
  whether the request was sent (and the function is suspended) or the function has
  returned. \<open>checkAuth_resume\<close> is the continuation: it gets the outcome of the
  request (\<open>Inl\<close> when the call threw), the credential \<open>tok\<close> the request carried
  (used by the history variable only) and the clock at that time.
\<close>

definition checkAuth_begin :: "auth_state \<Rightarrow> auth_state \<times> bool" where
  "checkAuth_begin s =
     (let token = getItem ''access_token'' s in
      if \<not> truthy token then (setLoading False s, False)
      else (api_validate_sent s, True))"

definition checkAuth_resume ::
  "error + validate_response \<Rightarrow> string \<Rightarrow> int \<Rightarrow> auth_state \<Rightarrow> auth_state" where
  "checkAuth_resume result tok now s =
     (case result of
        Inr response \<Rightarrow>
          (let s1 = setUser (Some \<lparr>user_id = user_id response,
                                   email = email response,
                                   name = or_else (getItem ''user_name'' s) (email response),
                                   role = role response\<rparr>) (s\<lparr>validated := Some tok\<rparr>);
               s2 = (if \<not> truthy (getItem ''login_time'' s1)
                     then setItem ''login_time'' (toString now) s1 else s1)
           in setLoading False s2)
      | Inl err \<Rightarrow>
          (let s1 = removeItem ''access_token'' (s\<lparr>validated := None\<rparr>);
               s2 = removeItem ''user_role'' s1;
               s3 = removeItem ''user_name'' s2;
               s4 = removeItem ''login_time'' s3
           in setLoading False s4))"

text \<open>The whole of \<^verbatim>\<open>checkAuth\<close>, when nothing else runs while it is suspended.\<close>

definition checkAuth :: "error + validate_response \<Rightarrow> int \<Rightarrow> auth_state \<Rightarrow> auth_state" where
  "checkAuth result now s =
     (case checkAuth_begin s of
        (s1, False) \<Rightarrow> s1
      | (s1, True) \<Rightarrow> checkAuth_resume result (the (getItem ''access_token'' s)) now s1)"

subsection \<open>The provider's auth events\<close>

text \<open>
  The callback given to \<^verbatim>\<open>supabase.auth.onAuthStateChange\<close>. The event is the
  provider's event name, the session is \<open>None\<close> for \<^verbatim>\<open>null\<close> and otherwise
  carries the session's access token. The \<^verbatim>\<open>SIGNED_IN\<close> branch suspends at
  \<^verbatim>\<open>api.validate()\<close>; every other branch runs to its end. The continuation of
  the \<^verbatim>\<open>SIGNED_IN\<close> branch signs out of the provider when the validation failed,
  and is given the outcome of that sign-out.
\<close>

definition onAuthStateChange_begin ::
  "string \<Rightarrow> string option \<Rightarrow> int \<Rightarrow> auth_state \<Rightarrow> auth_state \<times> bool" where
  "onAuthStateChange_begin event session now s =
     (case (event = ''SIGNED_IN'', session) of
        (True, Some session_token) \<Rightarrow>
          (let s1 = setLoading True s;
               s2 = (if \<not> truthy (getItem ''login_time'' s1)
                     then setItem ''login_time'' (toString now) s1 else s1);
               s3 = setItem ''access_token'' session_token s2
           in (api_validate_sent s3, True))
      | _ \<Rightarrow>
          if event = ''SIGNED_OUT'' then (signed_out_branch s, False)
          else (s, False))"

definition onAuthStateChange_resume ::
  "error + validate_response \<Rightarrow> string \<Rightarrow> error option \<Rightarrow> auth_state \<Rightarrow> auth_state" where
  "onAuthStateChange_resume result tok outcome s =
     (case result of
        Inr response \<Rightarrow>
          (let s1 = setUser (Some \<lparr>user_id = user_id response,
                                   email = email response,
                                   name = name response,
                                   role = role response\<rparr>) (s\<lparr>validated := Some tok\<rparr>);
               s2 = setItem ''user_role'' (role response) s1;
               s3 = setItem ''user_name'' (name response) s2;
               s4 = (if pathname s3 = ''/login'' \<or> pathname s3 = ''/signup''
                     then (if role response = ''admin''
                           then router_push ''/admin/dashboard'' s3
                           else router_push ''/student/dashboard'' s3)
                     else s3)
           in setLoading False s4)
      | Inl err \<Rightarrow>
          (let s1 = supabase_signOut outcome (s\<lparr>validated := None\<rparr>);
               s2 = removeItem ''access_token'' s1;
               s3 = removeItem ''user_role'' s2;
               s4 = removeItem ''user_name'' s3;
               s5 = removeItem ''login_time'' s4;
               s6 = setUser None s5;
               s7 = setLoading False s6
           in setLoading False s7))"

definition onAuthStateChange ::
  "string \<Rightarrow> string option \<Rightarrow> error + validate_response \<Rightarrow> error option \<Rightarrow> int
     \<Rightarrow> auth_state \<Rightarrow> auth_state" where
  "onAuthStateChange event session result outcome now s =
     (case onAuthStateChange_begin event session now s of
        (s1, False) \<Rightarrow> s1
      | (s1, True) \<Rightarrow> onAuthStateChange_resume result (the session) outcome s1)"

subsection \<open>login and signup\<close>

text \<open>
  The \<^verbatim>\<open>catch\<close> of \<^verbatim>\<open>login\<close> and \<^verbatim>\<open>signup\<close> rethrows with the caught message, or
  with a default when the message is empty.
\<close>

definition rethrow :: "string \<Rightarrow> error \<Rightarrow> error" where
  "rethrow dflt e = (case e of Error m \<Rightarrow> Error (if m \<noteq> [] then m else dflt))"

text \<open>
  \<open>result\<close> is the outcome of \<^verbatim>\<open>api.login(email, password)\<close>. The function returns
  what the caller's promise settles to, with the state it leaves.
\<close>

definition login ::
  "error + login_response \<Rightarrow> string option \<Rightarrow> int \<Rightarrow> auth_state \<Rightarrow> (error + unit) \<times> auth_state" where
  "login result expectedRole now s =
     (case result of
        Inl err \<Rightarrow> (Inl (rethrow ''Login failed'' err), s)
      | Inr response \<Rightarrow>
          if truthy expectedRole \<and> role response \<noteq> the expectedRole then
            (Inl (rethrow ''Login failed''
                    (Error (''Access denied: You are not authorized to login as a '' @ the expectedRole))), s)
          else
            (let s1 = setItem ''access_token'' (access_token response) s;
                 s2 = setItem ''user_role'' (role response) s1;
                 s3 = setItem ''user_name'' (name response) s2;
                 s4 = setItem ''login_time'' (toString now) s3;
                 s5 = setUser (Some \<lparr>user_id = user_id response,
                                      email = email response,
                                      name = name response,
                                      role = role response\<rparr>)
                        (s4\<lparr>validated := Some (access_token response)\<rparr>);
                 s6 = (if role response = ''admin''
                       then router_push ''/admin/dashboard'' s5
                       else router_push ''/student/dashboard'' s5)
             in (Inr (), s6)))"

definition signup :: "error + unit \<Rightarrow> auth_state \<Rightarrow> (error + unit) \<times> auth_state" where
  "signup result s =
     (case result of
        Inl err \<Rightarrow> (Inl (rethrow ''Signup failed'' err), s)
      | Inr ack \<Rightarrow> (Inr (), s))"

subsection \<open>Activity tracking and the periodic check\<close>

definition handleActivity :: "int \<Rightarrow> auth_state \<Rightarrow> auth_state" where
  "handleActivity now s = setLastActivity now s"

definition handleUnauthorized :: "error option \<Rightarrow> auth_state \<Rightarrow> auth_state" where
  "handleUnauthorized outcome s = logout outcome s"

text \<open>
  The \<^verbatim>\<open>setInterval\<close> callback. It calls \<^verbatim>\<open>logout()\<close> without awaiting it. A
  call made that way has changed nothing yet when the callback goes on, since the
  sign-out it starts completes later: the second test still reads \<^verbatim>\<open>login_time\<close>
  from the storage as it was. \<open>interval_callback\<close> is the number of \<^verbatim>\<open>logout()\<close>
  calls the callback makes.
\<close>

definition interval_callback :: "int \<Rightarrow> auth_state \<Rightarrow> nat" where
  "interval_callback now s =
     (let n1 = (if now - lastActivity s > 10 * 60 * 1000 then 1 else 0);
          loginTimeStr = getItem ''login_time'' s
      in if truthy loginTimeStr then
           (case parseInt (the loginTimeStr) of
              None \<Rightarrow> n1
            | Some loginTime \<Rightarrow>
                if now - loginTime > 30 * 60 * 1000 then Suc n1 else n1)
         else n1)"

text \<open>
  The callback followed by the \<^verbatim>\<open>logout()\<close> calls it made, run to their ends one
  after the other; \<open>outcome1\<close> and \<open>outcome2\<close> are the outcomes of their sign-outs.
  Two calls that overlap end in the same state (\<open>logout_overlap\<close> below).
\<close>

definition periodic_check ::
  "error option \<Rightarrow> error option \<Rightarrow> int \<Rightarrow> auth_state \<Rightarrow> auth_state" where
  "periodic_check outcome1 outcome2 now s =
     (let n = interval_callback now s in
      if n = 0 then s
      else if n = 1 then logout outcome1 s
      else logout outcome2 (logout outcome1 s))"

section \<open>The session manager as a transition system\<close>

text \<open>
  The state right after the provider component is mounted: no user, loading, no
  request sent yet. The storage is whatever an earlier page load left behind.
\<close>

definition initial :: "auth_state \<Rightarrow> bool" where
  "initial s = (user s = None \<and> loading s \<and> validate_calls s = 0 \<and> validated s = None)"

text \<open>
  The states reached when every operation runs to its end before the next event is
  handled: the mount effect runs \<open>checkAuth\<close> once, then the user, the provider, the
  timer and the router act in any order. The activity listeners and the interval exist
  only while \<open>user\<close> is set.
\<close>

inductive reachable :: "auth_state \<Rightarrow> bool" where
  mount: "initial s \<Longrightarrow> reachable s"
| startup: "initial s \<Longrightarrow> reachable (checkAuth result now s)"
| login: "reachable s \<Longrightarrow> reachable (snd (login lresult expectedRole now s))"
| signup: "reachable s \<Longrightarrow> reachable (snd (signup sresult s))"
| logout: "reachable s \<Longrightarrow> reachable (logout outcome s)"
| auth_event:
    "reachable s \<Longrightarrow> reachable (onAuthStateChange event session result outcome now s)"
| unauthorized: "reachable s \<Longrightarrow> reachable (handleUnauthorized outcome s)"
| activity: "reachable s \<Longrightarrow> isAuthenticated s \<Longrightarrow> reachable (handleActivity now s)"
| timer:
    "reachable s \<Longrightarrow> isAuthenticated s \<Longrightarrow> reachable (periodic_check outcome1 outcome2 now s)"
| navigate: "reachable s \<Longrightarrow> reachable (s\<lparr>pathname := p\<rparr>)"
| provider: "reachable s \<Longrightarrow> reachable (s\<lparr>provider_signed_in := b\<rparr>)"

text \<open>
  The identity is set exactly when a credential is stored and that credential's most
  recent check by the backend succeeded.
\<close>

definition session_invariant :: "auth_state \<Rightarrow> bool" where
  "session_invariant s =
     (user s \<noteq> None \<longleftrightarrow>
        getItem ''access_token'' s \<noteq> None \<and> validated s = getItem ''access_token'' s)"

section \<open>Concrete states and responses\<close>

definition student_profile :: User where
  "student_profile =
     \<lparr>user_id = ''u1'', email = ''ada@example.org'', name = ''Ada L'', role = ''student''\<rparr>"

definition admin_login :: login_response where
  "admin_login =
     \<lparr>user_id = ''u2'', email = ''root@example.org'', name = ''Root'', role = ''admin'',
      access_token = ''tok2''\<rparr>"

text \<open>A page load that finds a credential and session metadata in the storage.\<close>

definition startup_state :: auth_state where
  "startup_state =
     \<lparr>user = None, loading = True, lastActivity = 0,
      localStorage = [''access_token'' \<mapsto> ''tok'', ''user_role'' \<mapsto> ''student'',
                      ''user_name'' \<mapsto> ''Ada'', ''login_time'' \<mapsto> ''1000''],
      pathname = ''/student/dashboard'', provider_signed_in = True,
      validate_calls = 0, validated = None\<rparr>"

text \<open>The same, with an empty display name stored.\<close>

definition empty_name_state :: auth_state where
  "empty_name_state =
     \<lparr>user = None, loading = True, lastActivity = 0,
      localStorage = [''access_token'' \<mapsto> ''tok'', ''user_role'' \<mapsto> ''student'',
                      ''user_name'' \<mapsto> [], ''login_time'' \<mapsto> ''1000''],
      pathname = ''/student/dashboard'', provider_signed_in = False,
      validate_calls = 0, validated = None\<rparr>"

text \<open>A session of a student who logged in at time 1000 and was last active then.\<close>

definition authenticated_state :: auth_state where
  "authenticated_state =
     \<lparr>user = Some student_profile, loading = False, lastActivity = 1000,
      localStorage = [''access_token'' \<mapsto> ''tok'', ''user_role'' \<mapsto> ''student'',
                      ''user_name'' \<mapsto> ''Ada L'', ''login_time'' \<mapsto> ''1000''],
      pathname = ''/student/dashboard'', provider_signed_in = False,
      validate_calls = 0, validated = Some ''tok''\<rparr>"

text \<open>
  The startup validation is sent, the provider reports \<^verbatim>\<open>SIGNED_OUT\<close> while the
  request is in flight, then the request's successful response is handled.
\<close>

definition stale_validate_state :: auth_state where
  "stale_validate_state =
     checkAuth_resume (Inr student_profile) ''tok'' 5000
       (fst (onAuthStateChange_begin ''SIGNED_OUT'' None 4000
          (fst (checkAuth_begin startup_state))))"

section \<open>Basic facts\<close>

lemmas storage_defs = getItem_def setItem_def removeItem_def setUser_def setLoading_def
  setLastActivity_def router_push_def signed_out_branch_def api_validate_sent_def

subsection \<open>A printed timestamp parses back\<close>

lemma digit_value_digit_char: "d < 10 \<Longrightarrow> digit_value (digit_char d) = Some d"
proof -
  assume "d < 10"
  then have "d \<in> {0, 1, 2, 3, 4, 5, 6, 7, 8, 9}"
    by auto
  then show ?thesis
    by (auto simp: digit_value_def digit_char_def)
qed

lemma is_digit_digit_char: "d < 10 \<Longrightarrow> is_digit 10 (digit_char d)"
  by (simp add: is_digit_def digit_value_digit_char)

lemma digits_all_digit: "\<forall>c \<in> set (digits n). is_digit 10 c"
proof (induction n rule: digits.induct)
  case (1 n)
  show ?case
  proof (cases "n < 10")
    case True
    then show ?thesis by (subst digits.simps) (simp add: is_digit_digit_char)
  next
    case False
    with 1 show ?thesis by (subst digits.simps) (simp add: is_digit_digit_char)
  qed
qed

lemma digits_nonempty: "digits n \<noteq> []"
  by (subst digits.simps) simp

lemma digits_value_snoc:
  "digits_value r (ds @ [c]) = r * digits_value r ds + the (digit_value c)"
  by (simp add: digits_value_def)

lemma digits_value_digits: "digits_value 10 (digits n) = n"
proof (induction n rule: digits.induct)
  case (1 n)
  show ?case
  proof (cases "n < 10")
    case True
    then show ?thesis
      by (subst digits.simps) (simp add: digits_value_def digit_value_digit_char)
  next
    case False
    then have "digits_value 10 (digits (n div 10)) = n div 10" using 1 by simp
    with False show ?thesis
      by (subst digits.simps) (simp add: digits_value_snoc digit_value_digit_char)
  qed
qed

lemma parse_radix_digits: "parse_radix 10 (digits n) = Some n"
proof -
  have tw: "takeWhile (is_digit 10) (digits n) = digits n"
    using digits_all_digit by simp
  show ?thesis
    unfolding parse_radix_def Let_def tw
    by (simp add: digits_nonempty digits_value_digits)
qed

lemma decimal_no_hex_prefix:
  assumes "\<forall>c \<in> set str. is_digit 10 c"
  shows "take 2 str \<noteq> ''0x'' \<and> take 2 str \<noteq> ''0X''"
proof -
  have nx: "\<not> is_digit 10 (CHR ''x'')" "\<not> is_digit 10 (CHR ''X'')"
    by (simp_all add: is_digit_def digit_value_def)
  have "CHR ''x'' \<notin> set (take 2 str)" "CHR ''X'' \<notin> set (take 2 str)"
    using assms nx by (auto dest: in_set_takeD)
  then show ?thesis by auto
qed

lemma parse_unsigned_digits: "parse_unsigned (digits n) = Some n"
  using decimal_no_hex_prefix [OF digits_all_digit, of n]
  by (simp add: parse_unsigned_def parse_radix_digits)

lemma digit_not_space_sign:
  assumes "is_digit 10 c"
  shows "\<not> is_space c \<and> c \<noteq> CHR ''-'' \<and> c \<noteq> CHR ''+''"
proof -
  have "\<not> is_digit 10 (CHR ''-'')" "\<not> is_digit 10 (CHR ''+'')"
    by (simp_all add: is_digit_def digit_value_def)
  moreover have "is_space c \<Longrightarrow> \<not> is_digit 10 c"
    by (auto simp: is_space_def is_digit_def digit_value_def)
  ultimately show ?thesis using assms by auto
qed

lemma parseInt_digits: "parseInt (digits n) = Some (int n)"
proof -
  obtain c r where cr: "digits n = c # r"
    using digits_nonempty [of n] by (cases "digits n") auto
  then have "is_digit 10 c"
    using digits_all_digit [of n] by simp
  then have c: "\<not> is_space c" "c \<noteq> CHR ''-''" "c \<noteq> CHR ''+''"
    using digit_not_space_sign by auto
  have "parse_unsigned (c # r) = Some n"
    using parse_unsigned_digits [of n] cr by simp
  then show ?thesis
    using c by (simp add: parseInt_def cr)
qed

lemma parseInt_toString: "parseInt (toString i) = Some i"
proof (cases "i < 0")
  case True
  have "\<not> is_space (CHR ''-'')" by (simp add: is_space_def)
  then show ?thesis
    using True by (simp add: parseInt_def toString_def parse_unsigned_digits)
next
  case False
  then show ?thesis by (simp add: toString_def parseInt_digits)
qed

lemma toString_nonempty: "toString i \<noteq> []"
  by (simp add: toString_def digits_nonempty)

lemma toString_1000: "toString 1000 = ''1000''"
  by code_simp

subsection \<open>Sign-out and the two halves of logout\<close>

lemma supabase_signOut_simps:
  "supabase_signOut (Some err) s = s"
  "supabase_signOut None s = signed_out_branch (s\<lparr>provider_signed_in := False\<rparr>)"
  by (simp_all add: supabase_signOut_def)

lemma signed_out_branch_resume: "signed_out_branch s = logout_resume s"
  by (simp add: logout_resume_def storage_defs)

lemma logout_resume_idem: "logout_resume (logout_resume s) = logout_resume s"
  by (simp add: logout_resume_def storage_defs)

lemma logout_resume_provider:
  "logout_resume (s\<lparr>provider_signed_in := b\<rparr>) = (logout_resume s)\<lparr>provider_signed_in := b\<rparr>"
  by (simp add: logout_resume_def storage_defs)

lemma logout_simps:
  "logout (Some err) s = logout_resume s"
  "logout None s = (logout_resume s)\<lparr>provider_signed_in := False\<rparr>"
  by (simp_all add: logout_def logout_begin_def supabase_signOut_simps signed_out_branch_resume
      logout_resume_idem logout_resume_provider)

lemma logout_resume_purges:
  "user (logout_resume s) = None"
  "getItem ''access_token'' (logout_resume s) = None"
  "getItem ''user_role'' (logout_resume s) = None"
  "getItem ''user_name'' (logout_resume s) = None"
  "getItem ''login_time'' (logout_resume s) = None"
  "pathname (logout_resume s) = ''/login''"
  "provider_signed_in (logout_resume s) = provider_signed_in s"
  by (simp_all add: logout_resume_def storage_defs)

lemma logout_purges:
  "user (logout outcome s) = None"
  "getItem ''access_token'' (logout outcome s) = None"
  "getItem ''user_role'' (logout outcome s) = None"
  "getItem ''user_name'' (logout outcome s) = None"
  "getItem ''login_time'' (logout outcome s) = None"
  "pathname (logout outcome s) = ''/login''"
  unfolding logout_def by (rule logout_resume_purges)+

lemma logout_local:
  "localStorage (logout outcome s) = localStorage (logout_resume s)"
  "loading (logout outcome s) = loading s"
  "lastActivity (logout outcome s) = lastActivity s"
  "validate_calls (logout outcome s) = validate_calls s"
  "validated (logout outcome s) = validated s"
  by (cases outcome; simp add: logout_simps logout_resume_def storage_defs)+

lemma logout_twice_same: "logout outcome (logout outcome s) = logout outcome s"
  by (cases outcome) (simp_all add: logout_simps logout_resume_idem logout_resume_provider)

lemma logout_twice:
  "logout outcome2 (logout outcome1 s)
   = (logout outcome1 s)\<lparr>provider_signed_in := provider_signed_in (logout outcome2 (logout outcome1 s))\<rparr>"
  by (cases outcome1; cases outcome2)
     (simp_all add: logout_simps logout_resume_idem logout_resume_provider logout_resume_purges)

text \<open>
  Two \<^verbatim>\<open>logout()\<close> calls whose sign-outs both end before either continuation runs
  leave the state two successive calls leave.
\<close>

lemma logout_overlap:
  "logout_resume (logout_resume (logout_begin outcome2 (logout_begin outcome1 s)))
   = logout outcome2 (logout outcome1 s)"
  by (cases outcome1; cases outcome2)
     (simp_all add: logout_def logout_begin_def supabase_signOut_simps signed_out_branch_resume
        logout_resume_idem logout_resume_provider)

lemma periodic_check_cases:
  "periodic_check outcome1 outcome2 now s = s
   \<or> periodic_check outcome1 outcome2 now s = logout outcome1 s
   \<or> periodic_check outcome1 outcome2 now s = logout outcome2 (logout outcome1 s)"
  by (simp add: periodic_check_def Let_def)

subsection \<open>Each operation keeps the invariant\<close>

lemma inv_logout_resume: "session_invariant (logout_resume s)"
  by (simp add: session_invariant_def logout_resume_def storage_defs)

lemma inv_logout: "session_invariant (logout outcome s)"
  unfolding logout_def by (rule inv_logout_resume)

lemma inv_initial: "initial s \<Longrightarrow> session_invariant s"
  by (auto simp: session_invariant_def initial_def storage_defs)

lemma inv_checkAuth: "initial s \<Longrightarrow> session_invariant (checkAuth result now s)"
  by (cases result; cases "localStorage s ''access_token''")
     (auto simp: session_invariant_def initial_def checkAuth_def checkAuth_begin_def
        checkAuth_resume_def storage_defs Let_def)

lemma inv_login:
  "session_invariant s \<Longrightarrow> session_invariant (snd (login lresult expectedRole now s))"
  by (cases lresult)
     (auto simp: session_invariant_def login_def storage_defs Let_def)

lemma inv_signup: "session_invariant s \<Longrightarrow> session_invariant (snd (signup sresult s))"
  by (cases sresult) (auto simp: signup_def)

lemma inv_signed_in:
  "session_invariant
     (onAuthStateChange_resume result tok outcome
        (fst (onAuthStateChange_begin ''SIGNED_IN'' (Some tok) now s)))"
  by (cases result; cases outcome)
     (auto simp: session_invariant_def onAuthStateChange_begin_def
        onAuthStateChange_resume_def supabase_signOut_simps storage_defs Let_def)

lemma inv_auth_event:
  assumes "session_invariant s"
  shows "session_invariant (onAuthStateChange event session result outcome now s)"
proof (cases "event = ''SIGNED_IN''")
  case True
  show ?thesis
  proof (cases session)
    case None
    with True assms show ?thesis
      by (simp add: onAuthStateChange_def onAuthStateChange_begin_def)
  next
    case (Some tok)
    have "snd (onAuthStateChange_begin ''SIGNED_IN'' (Some tok) now s)"
      by (simp add: onAuthStateChange_begin_def Let_def)
    then have "onAuthStateChange event session result outcome now s
               = onAuthStateChange_resume result tok outcome
                   (fst (onAuthStateChange_begin ''SIGNED_IN'' (Some tok) now s))"
      using True Some
      by (cases "onAuthStateChange_begin ''SIGNED_IN'' (Some tok) now s")
         (simp add: onAuthStateChange_def)
    then show ?thesis by (simp add: inv_signed_in)
  qed
next
  case False
  show ?thesis
  proof (cases "event = ''SIGNED_OUT''")
    case True
    then show ?thesis
      by (simp add: onAuthStateChange_def onAuthStateChange_begin_def signed_out_branch_resume
          inv_logout_resume split: option.splits)
  next
    case notout: False
    with False assms show ?thesis
      by (simp add: onAuthStateChange_def onAuthStateChange_begin_def split: option.splits)
  qed
qed

lemma inv_periodic:
  "session_invariant s \<Longrightarrow> session_invariant (periodic_check outcome1 outcome2 now s)"
  using periodic_check_cases [of outcome1 outcome2 now s]
    inv_logout [of outcome1 s] inv_logout [of outcome2 "logout outcome1 s"]
  by auto

section \<open>The claims\<close>

subsection \<open>C1: a validate response that arrives after logout\<close>

text \<open>
  Claim C1 says that a response of a validate call that was in flight when
  \<^verbatim>\<open>logout()\<close> finished is discarded. Neither continuation looks at the current
  state before it commits. Whatever happened before \<^verbatim>\<open>logout()\<close> finished, and
  whatever its sign-out came to, the late response meets a state \<open>logout outcome s\<close>,
  and there: a failed response leaves the session unauthenticated; a successful one
  sets the identity from the response (the startup path names the user by the
  response's email, the stored name being gone, and stamps a new \<^verbatim>\<open>login_time\<close>;
  the sign-in path stores role and display name again); in no case does the late
  response write the bearer credential.
\<close>

theorem stale_validate_after_logout:
  "\<not> isAuthenticated (checkAuth_resume (Inl err) tok now (logout outcome s))
   \<and> \<not> isAuthenticated (onAuthStateChange_resume (Inl err) tok outcome' (logout outcome s))
   \<and> user (checkAuth_resume (Inr response) tok now (logout outcome s))
       = Some \<lparr>user_id = user_id response, email = email response,
               name = email response, role = role response\<rparr>
   \<and> getItem ''login_time'' (checkAuth_resume (Inr response) tok now (logout outcome s))
       = Some (toString now)
   \<and> user (onAuthStateChange_resume (Inr response) tok outcome' (logout outcome s))
       = Some \<lparr>user_id = user_id response, email = email response,
               name = name response, role = role response\<rparr>
   \<and> getItem ''user_role'' (onAuthStateChange_resume (Inr response) tok outcome' (logout outcome s))
       = Some (role response)
   \<and> getItem ''user_name'' (onAuthStateChange_resume (Inr response) tok outcome' (logout outcome s))
       = Some (name response)
   \<and> getItem ''access_token'' (checkAuth_resume (Inl err) tok now (logout outcome s)) = None
   \<and> getItem ''access_token'' (checkAuth_resume (Inr response) tok now (logout outcome s)) = None
   \<and> getItem ''access_token'' (onAuthStateChange_resume (Inl err) tok outcome' (logout outcome s))
       = None
   \<and> getItem ''access_token'' (onAuthStateChange_resume (Inr response) tok outcome' (logout outcome s))
       = None"
proof -
  have fail: "user (onAuthStateChange_resume (Inl err) tok outcome' t) = None"
    "getItem ''access_token'' (onAuthStateChange_resume (Inl err) tok outcome' t) = None" for t
    by (cases outcome'; simp add: onAuthStateChange_resume_def supabase_signOut_simps storage_defs)+
  have rest:
    "user (checkAuth_resume (Inl err) tok now (logout_resume t)) = None"
    "user (checkAuth_resume (Inr response) tok now (logout_resume t))
       = Some \<lparr>user_id = user_id response, email = email response,
               name = email response, role = role response\<rparr>"
    "getItem ''login_time'' (checkAuth_resume (Inr response) tok now (logout_resume t))
       = Some (toString now)"
    "user (onAuthStateChange_resume (Inr response) tok outcome' (logout_resume t))
       = Some \<lparr>user_id = user_id response, email = email response,
               name = name response, role = role response\<rparr>"
    "getItem ''user_role'' (onAuthStateChange_resume (Inr response) tok outcome' (logout_resume t))
       = Some (role response)"
    "getItem ''user_name'' (onAuthStateChange_resume (Inr response) tok outcome' (logout_resume t))
       = Some (name response)"
    "getItem ''access_token'' (checkAuth_resume (Inl err) tok now (logout_resume t)) = None"
    "getItem ''access_token'' (checkAuth_resume (Inr response) tok now (logout_resume t)) = None"
    "getItem ''access_token'' (onAuthStateChange_resume (Inr response) tok outcome' (logout_resume t))
       = None" for t
    by (simp_all add: checkAuth_resume_def onAuthStateChange_resume_def logout_resume_def
        or_else_def storage_defs Let_def)
  show ?thesis
    unfolding logout_def isAuthenticated_def by (simp add: fail rest)
qed

text \<open>
  The claim as stated fails: at startup with a stored credential the validation is
  sent, \<^verbatim>\<open>logout()\<close> runs to its end, and the successful response then signs the
  user in again.
\<close>

theorem stale_validate_after_logout_counterexample:
  "snd (checkAuth_begin startup_state)
   \<and> \<not> isAuthenticated (logout None (fst (checkAuth_begin startup_state)))
   \<and> isAuthenticated
        (checkAuth_resume (Inr student_profile) ''tok'' 5000
           (logout None (fst (checkAuth_begin startup_state))))"
  by (simp add: checkAuth_begin_def checkAuth_resume_def logout_simps logout_resume_def
      startup_state_def isAuthenticated_def storage_defs Let_def)

subsection \<open>C2: login with a role other than the expected one\<close>

text \<open>
  Claim C2, amended: when the backend answers a login successfully with a role
  different from a supplied, non-empty \<^verbatim>\<open>expectedRole\<close>, \<^verbatim>\<open>login\<close> throws the
  access-denied error and leaves the whole state, the storage included, as it was.
\<close>

theorem login_role_mismatch:
  assumes "expectedRole = Some er" and "er \<noteq> []" and "role response \<noteq> er"
  shows "login (Inr response) expectedRole now s
         = (Inl (Error (''Access denied: You are not authorized to login as a '' @ er)), s)"
  using assms by (simp add: login_def rethrow_def)

theorem login_role_mismatch_witness:
  "Some ''student'' = Some ''student'' \<and> ''student'' \<noteq> [] \<and> role admin_login \<noteq> ''student''
   \<and> login (Inr admin_login) (Some ''student'') 5000 startup_state
      = (Inl (Error (''Access denied: You are not authorized to login as a '' @ ''student'')),
         startup_state)"
proof -
  have a: "Some ''student'' = Some ''student''" by simp
  have b: "''student'' \<noteq> []" by simp
  have c: "role admin_login \<noteq> ''student''" by (simp add: admin_login_def)
  show ?thesis
    using b c login_role_mismatch [OF a b c, of 5000 startup_state] by simp
qed

text \<open>
  The claim as stated fails for the empty string: \<^verbatim>\<open>expectedRole && \<dots>\<close> takes
  it for no expectation, so a login that returns the role \<^verbatim>\<open>admin\<close> succeeds and
  stores the credential.
\<close>

theorem login_empty_expectedRole_counterexample:
  "role admin_login \<noteq> []
   \<and> fst (login (Inr admin_login) (Some []) 5000 startup_state) = Inr ()
   \<and> isAuthenticated (snd (login (Inr admin_login) (Some []) 5000 startup_state))
   \<and> getItem ''access_token'' (snd (login (Inr admin_login) (Some []) 5000 startup_state))
       = Some ''tok2''
   \<and> snd (login (Inr admin_login) (Some []) 5000 startup_state) \<noteq> startup_state"
proof -
  have "user (snd (login (Inr admin_login) (Some []) 5000 startup_state)) \<noteq> user startup_state"
    by (simp add: login_def admin_login_def startup_state_def storage_defs Let_def)
  then have "snd (login (Inr admin_login) (Some []) 5000 startup_state) \<noteq> startup_state"
    by auto
  then show ?thesis
    by (simp add: login_def admin_login_def isAuthenticated_def storage_defs Let_def)
qed

subsection \<open>C3: identity and credential\<close>

text \<open>
  Claim C3, amended: in every state reached by operations that each run to their end
  before the next event is handled, the identity is set if and only if a credential
  is stored and that credential's most recent check by the backend succeeded.
\<close>

theorem reachable_session_invariant:
  assumes "reachable s"
  shows "session_invariant s"
  using assms
proof (induction rule: reachable.induct)
  case mount
  then show ?case by (rule inv_initial)
next
  case startup
  then show ?case by (rule inv_checkAuth)
next
  case login
  then show ?case by (simp add: inv_login)
next
  case signup
  then show ?case by (simp add: inv_signup)
next
  case logout
  show ?case by (rule inv_logout)
next
  case auth_event
  then show ?case by (simp add: inv_auth_event)
next
  case unauthorized
  show ?case by (simp add: handleUnauthorized_def inv_logout)
next
  case activity
  then show ?case by (simp add: session_invariant_def handleActivity_def storage_defs)
next
  case timer
  then show ?case by (simp add: inv_periodic)
next
  case navigate
  then show ?case by (simp add: session_invariant_def storage_defs)
next
  case provider
  then show ?case by (simp add: session_invariant_def storage_defs)
qed

theorem reachable_session_invariant_witness:
  "reachable (checkAuth (Inr student_profile) 5000 startup_state)
   \<and> isAuthenticated (checkAuth (Inr student_profile) 5000 startup_state)
   \<and> session_invariant (checkAuth (Inr student_profile) 5000 startup_state)"
proof -
  have "initial startup_state" by (simp add: initial_def startup_state_def)
  then have r: "reachable (checkAuth (Inr student_profile) 5000 startup_state)"
    by (rule reachable.startup)
  have "isAuthenticated (checkAuth (Inr student_profile) 5000 startup_state)"
    by (simp add: isAuthenticated_def checkAuth_def checkAuth_begin_def checkAuth_resume_def
        startup_state_def storage_defs Let_def)
  then show ?thesis
    using r reachable_session_invariant [OF r] by blast
qed

text \<open>
  Without that restriction the claim fails: a \<^verbatim>\<open>SIGNED_OUT\<close> event handled while
  the startup validation is in flight purges the storage, and the response then sets
  the identity, which leaves an identity with no stored credential.
\<close>

theorem stale_validate_breaks_invariant_counterexample:
  "snd (checkAuth_begin startup_state)
   \<and> user stale_validate_state \<noteq> None
   \<and> getItem ''access_token'' stale_validate_state = None
   \<and> \<not> session_invariant stale_validate_state"
  by (simp add: stale_validate_state_def session_invariant_def checkAuth_begin_def
      checkAuth_resume_def onAuthStateChange_begin_def startup_state_def storage_defs Let_def)

subsection \<open>C4: a failed validation at startup\<close>

text \<open>
  Claim C4, amended: when a credential is found at startup and the validate call
  fails, the four storage keys are removed, the identity stays unset and the loading
  flag is cleared; identity and storage are those \<^verbatim>\<open>logout()\<close> would leave, and
  exactly one validate request has been sent, so the failed call is not repeated.
  Unlike \<^verbatim>\<open>logout()\<close>, this path does not navigate and does not sign out of the
  provider.
\<close>

theorem checkAuth_failure_purges:
  assumes "initial s" and "truthy (getItem ''access_token'' s)"
  shows "\<not> isAuthenticated (checkAuth (Inl err) now s)
         \<and> user (checkAuth (Inl err) now s) = user (logout outcome s)
         \<and> localStorage (checkAuth (Inl err) now s) = localStorage (logout outcome s)
         \<and> getItem ''access_token'' (checkAuth (Inl err) now s) = None
         \<and> getItem ''user_role'' (checkAuth (Inl err) now s) = None
         \<and> getItem ''user_name'' (checkAuth (Inl err) now s) = None
         \<and> getItem ''login_time'' (checkAuth (Inl err) now s) = None
         \<and> \<not> loading (checkAuth (Inl err) now s)
         \<and> validate_calls (checkAuth (Inl err) now s) = 1
         \<and> pathname (checkAuth (Inl err) now s) = pathname s
         \<and> provider_signed_in (checkAuth (Inl err) now s) = provider_signed_in s"
  using assms
  by (simp add: checkAuth_def checkAuth_begin_def checkAuth_resume_def logout_purges
      logout_local logout_resume_def initial_def isAuthenticated_def storage_defs Let_def)

theorem checkAuth_failure_purges_witness:
  "initial startup_state \<and> truthy (getItem ''access_token'' startup_state)
   \<and> \<not> isAuthenticated (checkAuth (Inl (Error ''Unauthorized'')) 5000 startup_state)
   \<and> localStorage (checkAuth (Inl (Error ''Unauthorized'')) 5000 startup_state)
       = localStorage (logout None startup_state)
   \<and> validate_calls (checkAuth (Inl (Error ''Unauthorized'')) 5000 startup_state) = 1"
proof -
  have a: "initial startup_state" by (simp add: initial_def startup_state_def)
  have b: "truthy (getItem ''access_token'' startup_state)"
    by (simp add: getItem_def startup_state_def)
  show ?thesis
    using a b checkAuth_failure_purges [OF a b, of "Error ''Unauthorized''" 5000 None] by simp
qed

text \<open>
  The claim as stated fails: after the failed validation the page is still the
  dashboard and the provider is still signed in, where \<^verbatim>\<open>logout()\<close> leaves the
  login page and, when its sign-out takes effect, a signed-out provider.
\<close>

theorem checkAuth_failure_counterexample:
  "initial startup_state \<and> truthy (getItem ''access_token'' startup_state)
   \<and> pathname (checkAuth (Inl (Error ''Unauthorized'')) 5000 startup_state) = ''/student/dashboard''
   \<and> pathname (logout None startup_state) = ''/login''
   \<and> pathname (logout (Some (Error ''Failed to fetch'')) startup_state) = ''/login''
   \<and> provider_signed_in (checkAuth (Inl (Error ''Unauthorized'')) 5000 startup_state)
   \<and> \<not> provider_signed_in (logout None startup_state)
   \<and> checkAuth (Inl (Error ''Unauthorized'')) 5000 startup_state \<noteq> logout None startup_state
   \<and> checkAuth (Inl (Error ''Unauthorized'')) 5000 startup_state
       \<noteq> logout (Some (Error ''Failed to fetch'')) startup_state"
proof -
  have p: "pathname (checkAuth (Inl (Error ''Unauthorized'')) 5000 startup_state)
           = ''/student/dashboard''"
    by (simp add: checkAuth_def checkAuth_begin_def checkAuth_resume_def startup_state_def
        storage_defs Let_def)
  have q: "pathname (logout outcome startup_state) = ''/login''" for outcome
    by (rule logout_purges)
  have pq: "pathname (checkAuth (Inl (Error ''Unauthorized'')) 5000 startup_state)
            \<noteq> pathname (logout outcome startup_state)" for outcome
    by (simp add: p q)
  have ne: "checkAuth (Inl (Error ''Unauthorized'')) 5000 startup_state
            \<noteq> logout outcome startup_state" for outcome
    using pq [of outcome] by auto
  have r: "provider_signed_in (checkAuth (Inl (Error ''Unauthorized'')) 5000 startup_state)"
    by (simp add: checkAuth_def checkAuth_begin_def checkAuth_resume_def startup_state_def
        storage_defs Let_def)
  have i: "initial startup_state" "truthy (getItem ''access_token'' startup_state)"
    by (simp_all add: initial_def startup_state_def getItem_def)
  have np: "\<not> provider_signed_in (logout None startup_state)"
    by (simp add: logout_simps)
  show ?thesis
    using i p r np q [of None] q [of "Some (Error ''Failed to fetch'')"]
      ne [of None] ne [of "Some (Error ''Failed to fetch'')"]
    by blast
qed

subsection \<open>C5: logout clears the session\<close>

text \<open>
  Claim C5: from every state, and whatever the sign-out comes to, \<^verbatim>\<open>logout()\<close>
  ends unauthenticated, with the identity cleared and the bearer credential, the
  role, the display name and the login time all absent. At its one suspension point
  the storage is either still as it was or already without all four keys, and the
  four removals of the continuation run in one piece, so no other handler sees some
  of the keys without the others.
\<close>

theorem logout_clears_all:
  "\<not> isAuthenticated (logout outcome s) \<and> user (logout outcome s) = None
   \<and> getItem ''access_token'' (logout outcome s) = None
   \<and> getItem ''user_role'' (logout outcome s) = None
   \<and> getItem ''user_name'' (logout outcome s) = None
   \<and> getItem ''login_time'' (logout outcome s) = None
   \<and> (localStorage (logout_begin outcome s) = localStorage s
        \<or> getItem ''access_token'' (logout_begin outcome s) = None
          \<and> getItem ''user_role'' (logout_begin outcome s) = None
          \<and> getItem ''user_name'' (logout_begin outcome s) = None
          \<and> getItem ''login_time'' (logout_begin outcome s) = None)"
proof -
  have "user (logout outcome s) = None"
    by (rule logout_purges)
  moreover from this have "\<not> isAuthenticated (logout outcome s)"
    by (simp add: isAuthenticated_def)
  moreover have "getItem ''access_token'' (logout outcome s) = None"
    "getItem ''user_role'' (logout outcome s) = None"
    "getItem ''user_name'' (logout outcome s) = None"
    "getItem ''login_time'' (logout outcome s) = None"
    by (rule logout_purges)+
  moreover have "localStorage (logout_begin outcome s) = localStorage s
        \<or> getItem ''access_token'' (logout_begin outcome s) = None
          \<and> getItem ''user_role'' (logout_begin outcome s) = None
          \<and> getItem ''user_name'' (logout_begin outcome s) = None
          \<and> getItem ''login_time'' (logout_begin outcome s) = None"
  proof (cases outcome)
    case None
    then show ?thesis
      by (simp add: logout_begin_def supabase_signOut_simps signed_out_branch_resume
          logout_resume_purges)
  next
    case (Some err)
    then show ?thesis
      by (simp add: logout_begin_def supabase_signOut_simps)
  qed
  ultimately show ?thesis by blast
qed

theorem logout_clears_all_witness:
  "isAuthenticated authenticated_state
   \<and> \<not> isAuthenticated (logout None authenticated_state)
   \<and> getItem ''access_token'' (logout None authenticated_state) = None
   \<and> getItem ''user_role'' (logout None authenticated_state) = None
   \<and> getItem ''user_name'' (logout None authenticated_state) = None
   \<and> getItem ''login_time'' (logout None authenticated_state) = None"
proof -
  have a: "isAuthenticated authenticated_state"
    by (simp add: isAuthenticated_def authenticated_state_def)
  show ?thesis
    using a logout_clears_all [of None authenticated_state] by blast
qed

subsection \<open>C6: logout is idempotent\<close>

text \<open>
  Claim C6: calling \<^verbatim>\<open>logout()\<close> twice in succession leaves exactly the state one
  call leaves. When the two sign-outs come to different outcomes the two states
  still agree on everything but the provider's own session.
\<close>

theorem logout_idempotent:
  "logout outcome (logout outcome s) = logout outcome s
   \<and> logout outcome2 (logout outcome1 s)
       = (logout outcome1 s)
           \<lparr>provider_signed_in := provider_signed_in (logout outcome2 (logout outcome1 s))\<rparr>"
proof -
  have "logout outcome (logout outcome s) = logout outcome s"
  proof (cases outcome)
    case None
    have "logout None (logout None s)
          = (logout_resume ((logout_resume s)\<lparr>provider_signed_in := False\<rparr>))
              \<lparr>provider_signed_in := False\<rparr>"
      by (simp add: logout_simps)
    also have "\<dots> = (logout_resume (logout_resume s))\<lparr>provider_signed_in := False\<rparr>"
      by (simp add: logout_resume_provider)
    also have "\<dots> = logout None s"
      by (simp add: logout_resume_idem logout_simps)
    finally show ?thesis using None by simp
  next
    case (Some err)
    then show ?thesis by (simp add: logout_simps logout_resume_idem)
  qed
  then show ?thesis using logout_twice [of outcome2 outcome1 s] by simp
qed

theorem logout_idempotent_witness:
  "logout None (logout None authenticated_state) = logout None authenticated_state
   \<and> logout None authenticated_state \<noteq> authenticated_state"
proof -
  have "user (logout None authenticated_state) \<noteq> user authenticated_state"
    by (simp add: logout_purges authenticated_state_def)
  then have "logout None authenticated_state \<noteq> authenticated_state" by auto
  then show ?thesis
    using logout_idempotent [of None authenticated_state] by blast
qed

subsection \<open>C7: the absolute session lifetime\<close>

text \<open>
  Claim C7: in an authenticated state whose stored \<^verbatim>\<open>login_time\<close> is the printed
  time \<open>T\<close>, a periodic check that runs later than 30 minutes after \<open>T\<close> logs the user
  out, however recent the last activity is. The check calls \<^verbatim>\<open>logout()\<close> once, or
  twice when the inactivity limit has passed as well; when both sign-outs come to the
  same outcome the state is the one a single \<^verbatim>\<open>logout()\<close> leaves.
\<close>

theorem periodic_check_max_session:
  assumes "isAuthenticated s"
    and "getItem ''login_time'' s = Some (toString T)"
    and "now - T > 30 * 60 * 1000"
  shows "periodic_check outcome outcome now s = logout outcome s
         \<and> \<not> isAuthenticated (periodic_check outcome1 outcome2 now s)
         \<and> periodic_check outcome1 outcome2 now s
             = (if now - lastActivity s > 10 * 60 * 1000
                then logout outcome2 (logout outcome1 s) else logout outcome1 s)"
proof -
  have n: "interval_callback now s = (if now - lastActivity s > 10 * 60 * 1000 then 2 else 1)"
    using assms(2,3)
    by (simp add: interval_callback_def Let_def toString_nonempty parseInt_toString)
  have exact: "periodic_check a b now s
               = (if now - lastActivity s > 10 * 60 * 1000
                  then logout b (logout a s) else logout a s)" for a b
    by (simp add: periodic_check_def n Let_def)
  have "periodic_check outcome outcome now s = logout outcome s"
    by (simp add: exact logout_twice_same)
  moreover have "user (periodic_check outcome1 outcome2 now s) = None"
    by (simp add: exact logout_purges)
  ultimately show ?thesis
    by (simp add: exact isAuthenticated_def)
qed

text \<open>Login at 1000, last activity one millisecond ago, check 31 minutes after login.\<close>

theorem periodic_check_max_session_witness:
  "isAuthenticated (authenticated_state\<lparr>lastActivity := 1861000\<rparr>)
   \<and> getItem ''login_time'' (authenticated_state\<lparr>lastActivity := 1861000\<rparr>) = Some (toString 1000)
   \<and> (1861001::int) - 1000 > 30 * 60 * 1000
   \<and> \<not> (1861001 - lastActivity (authenticated_state\<lparr>lastActivity := 1861000\<rparr>) > 10 * 60 * 1000)
   \<and> periodic_check None None 1861001 (authenticated_state\<lparr>lastActivity := 1861000\<rparr>)
       = logout None (authenticated_state\<lparr>lastActivity := 1861000\<rparr>)
   \<and> \<not> isAuthenticated
        (periodic_check None None 1861001 (authenticated_state\<lparr>lastActivity := 1861000\<rparr>))"
proof -
  let ?s = "authenticated_state\<lparr>lastActivity := 1861000\<rparr>"
  have a: "isAuthenticated ?s"
    by (simp add: isAuthenticated_def authenticated_state_def)
  have b: "getItem ''login_time'' ?s = Some (toString 1000)"
    by (simp add: getItem_def authenticated_state_def toString_1000)
  have c: "(1861001::int) - 1000 > 30 * 60 * 1000" by simp
  have d: "\<not> (1861001 - lastActivity ?s > 10 * 60 * 1000)" by simp
  show ?thesis
    using a b c d periodic_check_max_session [OF a b c, of None None None] by blast
qed

subsection \<open>C8: the inactivity timeout\<close>

text \<open>
  Claim C8: in an authenticated state whose last activity was at \<open>T\<close>, a periodic
  check that runs later than 10 minutes after \<open>T\<close> logs the user out. The check
  calls \<^verbatim>\<open>logout()\<close> once, or twice when the session lifetime has passed as well;
  when both sign-outs come to the same outcome the state is the one a single
  \<^verbatim>\<open>logout()\<close> leaves.
\<close>

theorem periodic_check_inactivity:
  assumes "isAuthenticated s"
    and "lastActivity s = T"
    and "now - T > 10 * 60 * 1000"
  shows "periodic_check outcome outcome now s = logout outcome s
         \<and> \<not> isAuthenticated (periodic_check outcome1 outcome2 now s)
         \<and> (periodic_check outcome1 outcome2 now s = logout outcome1 s
              \<or> periodic_check outcome1 outcome2 now s = logout outcome2 (logout outcome1 s))"
proof -
  have "interval_callback now s = 1 \<or> interval_callback now s = 2"
    using assms(2,3)
    by (simp add: interval_callback_def Let_def split: option.splits)
  then have cases: "periodic_check a b now s = logout a s
                    \<or> periodic_check a b now s = logout b (logout a s)" for a b
    by (auto simp: periodic_check_def Let_def)
  have "periodic_check outcome outcome now s = logout outcome s"
    using cases [of outcome outcome] by (auto simp: logout_twice_same)
  moreover have "user (periodic_check outcome1 outcome2 now s) = None"
    using cases [of outcome1 outcome2] by (auto simp: logout_purges)
  ultimately show ?thesis
    using cases [of outcome1 outcome2] by (simp add: isAuthenticated_def)
qed

text \<open>Last activity at 1000, check 11 minutes later, well inside the session lifetime.\<close>

theorem periodic_check_inactivity_witness:
  "isAuthenticated authenticated_state
   \<and> lastActivity authenticated_state = 1000
   \<and> (661000::int) - 1000 > 10 * 60 * 1000
   \<and> periodic_check None None 661000 authenticated_state = logout None authenticated_state
   \<and> \<not> isAuthenticated (periodic_check None None 661000 authenticated_state)"
proof -
  have a: "isAuthenticated authenticated_state"
    by (simp add: isAuthenticated_def authenticated_state_def)
  have b: "lastActivity authenticated_state = 1000"
    by (simp add: authenticated_state_def)
  have c: "(661000::int) - 1000 > 10 * 60 * 1000" by simp
  show ?thesis
    using a b c periodic_check_inactivity [OF a b c, of None None None] by blast
qed

subsection \<open>C9: logout and the provider's session\<close>

text \<open>
  Claim C9, amended: whatever state the session is in, and so however it was
  created, \<^verbatim>\<open>logout()\<close> first calls the provider's sign-out and awaits it, and only
  then runs its own removals; it never looks at the sign-out's result. Afterwards the
  identity and the stored credential are gone in every case. When the sign-out took
  effect the provider's session is gone as well, and the provider's signed-out event
  has purged the local state by the time \<^verbatim>\<open>logout()\<close> continues. When the sign-out
  reported an error, nothing has changed by the time \<^verbatim>\<open>logout()\<close> continues, and the
  provider's session is left as it was.
\<close>

theorem logout_signs_out_provider_first:
  "logout outcome s = logout_resume (supabase_signOut outcome s)
   \<and> user (logout outcome s) = None
   \<and> getItem ''access_token'' (logout outcome s) = None
   \<and> \<not> provider_signed_in (logout None s)
   \<and> \<not> provider_signed_in (supabase_signOut None s)
   \<and> user (supabase_signOut None s) = None
   \<and> getItem ''access_token'' (supabase_signOut None s) = None
   \<and> supabase_signOut (Some err) s = s
   \<and> provider_signed_in (logout (Some err) s) = provider_signed_in s"
proof -
  have "logout outcome s = logout_resume (supabase_signOut outcome s)"
    by (simp add: logout_def logout_begin_def)
  moreover have "user (logout outcome s) = None" "getItem ''access_token'' (logout outcome s) = None"
    by (rule logout_purges)+
  moreover have "\<not> provider_signed_in (logout None s)"
    "provider_signed_in (logout (Some err) s) = provider_signed_in s"
    by (simp_all add: logout_simps logout_resume_purges)
  moreover have "\<not> provider_signed_in (supabase_signOut None s)"
    "user (supabase_signOut None s) = None"
    "getItem ''access_token'' (supabase_signOut None s) = None"
    by (simp_all add: supabase_signOut_simps signed_out_branch_resume logout_resume_purges)
  moreover have "supabase_signOut (Some err) s = s"
    by (rule supabase_signOut_simps)
  ultimately show ?thesis by blast
qed

theorem logout_signs_out_provider_first_witness:
  "provider_signed_in startup_state
   \<and> getItem ''access_token'' startup_state = Some ''tok''
   \<and> \<not> provider_signed_in (logout None startup_state)
   \<and> getItem ''access_token'' (logout None startup_state) = None"
proof -
  have a: "provider_signed_in startup_state" "getItem ''access_token'' startup_state = Some ''tok''"
    by (simp_all add: startup_state_def getItem_def)
  show ?thesis
    using a logout_signs_out_provider_first [of None startup_state] by blast
qed

text \<open>
  The claim as stated fails when the sign-out reports an error: \<^verbatim>\<open>logout()\<close>
  purges the local state all the same, and the provider stays signed in.
\<close>

theorem logout_signOut_error_counterexample:
  "provider_signed_in startup_state
   \<and> user (logout (Some (Error ''Failed to fetch'')) startup_state) = None
   \<and> getItem ''access_token'' (logout (Some (Error ''Failed to fetch'')) startup_state) = None
   \<and> provider_signed_in (logout (Some (Error ''Failed to fetch'')) startup_state)"
  by (simp add: logout_simps logout_resume_purges startup_state_def)

subsection \<open>C10: the display name after startup revalidation\<close>

text \<open>
  Claim C10, amended: after a successful startup revalidation of a stored credential
  the identity's display name is the stored display name when that is present and
  not empty, and the email of the response otherwise; the name in the response plays
  no part.
\<close>

theorem checkAuth_display_name:
  assumes "truthy (getItem ''access_token'' s)"
  shows "map_option name (user (checkAuth (Inr response) now s))
           = Some (case getItem ''user_name'' s of
                     None \<Rightarrow> email response
                   | Some n \<Rightarrow> if n \<noteq> [] then n else email response)
         \<and> checkAuth (Inr (response\<lparr>name := other\<rparr>)) now s = checkAuth (Inr response) now s"
  using assms
  by (simp add: checkAuth_def checkAuth_begin_def checkAuth_resume_def or_else_def
      storage_defs Let_def split: option.splits)

theorem checkAuth_display_name_witness:
  "truthy (getItem ''access_token'' startup_state)
   \<and> map_option name (user (checkAuth (Inr student_profile) 5000 startup_state)) = Some ''Ada''
   \<and> checkAuth (Inr (student_profile\<lparr>name := ''Someone else''\<rparr>)) 5000 startup_state
       = checkAuth (Inr student_profile) 5000 startup_state"
proof -
  have a: "truthy (getItem ''access_token'' startup_state)"
    by (simp add: getItem_def startup_state_def)
  have b: "getItem ''user_name'' startup_state = Some ''Ada''"
    by (simp add: getItem_def startup_state_def)
  show ?thesis
    using a checkAuth_display_name [OF a, of student_profile 5000 "''Someone else''"]
    by (simp add: b)
qed

text \<open>
  The claim as stated fails when the stored display name is the empty string: the
  key is present, yet the identity is named by the email.
\<close>

theorem checkAuth_empty_stored_name_counterexample:
  "truthy (getItem ''access_token'' empty_name_state)
   \<and> getItem ''user_name'' empty_name_state = Some []
   \<and> map_option name (user (checkAuth (Inr student_profile) 5000 empty_name_state))
       = Some ''ada@example.org''
   \<and> map_option name (user (checkAuth (Inr student_profile) 5000 empty_name_state)) \<noteq> Some []"
  by (simp add: checkAuth_def checkAuth_begin_def checkAuth_resume_def or_else_def
      empty_name_state_def student_profile_def storage_defs Let_def)

end
